theory Spec2Isabelle
  imports Complex_Main
begin

section \<open>Python numbers\<close>

text \<open>
  The repository computes with Python's \<^verbatim>\<open>int\<close> (unbounded) and \<^verbatim>\<open>float\<close>.
  A finite float is idealised as a real number: rounding and the finite range of a
  double are not described. The special values of a float are kept, because the code
  branches on them (\<^verbatim>\<open>math.isfinite\<close>, \<^verbatim>\<open>int(x)\<close> inside \<^verbatim>\<open>try\<close>, \<^verbatim>\<open>!=\<close>).
  Quantities of the supervisory controller that the code has already screened with
  \<^verbatim>\<open>math.isfinite\<close>, and its configuration, are plain reals.
\<close>

datatype pyfloat = Fin real | PosInf | NegInf | NaN

datatype number = PInt int | PFloat pyfloat

datatype error =
    KeyError string
  | IndexError
  | ValueError
  | OverflowError
  | TypeError
  | ZeroDivisionError
  | StructError
  | OSError

text \<open>
  \<^verbatim>\<open>int(v)\<close> truncates a finite float toward zero and raises on an infinity
  (\<^verbatim>\<open>OverflowError\<close>) or a NaN (\<^verbatim>\<open>ValueError\<close>). \<open>py_float\<close> is the value of a number as
  a float, exact: it is what the comparisons of Python use, which compare an integer
  with a float by value and never raise, and it idealises \<^verbatim>\<open>float(v)\<close> where commands
  and measurements are written. In the stability predicate the conversion \<^verbatim>\<open>float(v)\<close>,
  which rounds and may raise, is a parameter.
\<close>

fun py_int :: "number \<Rightarrow> error + int" where
  "py_int (PInt i) = Inr i"
| "py_int (PFloat (Fin r)) = Inr (if 0 \<le> r then \<lfloor>r\<rfloor> else \<lceil>r\<rceil>)"
| "py_int (PFloat PosInf) = Inl OverflowError"
| "py_int (PFloat NegInf) = Inl OverflowError"
| "py_int (PFloat NaN) = Inl ValueError"

fun py_float :: "number \<Rightarrow> pyfloat" where
  "py_float (PInt i) = Fin (of_int i)"
| "py_float (PFloat f) = f"

text \<open>
  \<^verbatim>\<open>a == b\<close> on numbers compares values, so \<^verbatim>\<open>0 == 0.0\<close>; a NaN equals nothing, not
  even itself. \<^verbatim>\<open>a != b\<close> is its negation.
\<close>

fun pf_eq :: "pyfloat \<Rightarrow> pyfloat \<Rightarrow> bool" where
  "pf_eq (Fin a) (Fin b) = (a = b)"
| "pf_eq PosInf PosInf = True"
| "pf_eq NegInf NegInf = True"
| "pf_eq _ _ = False"

fun py_eq :: "number \<Rightarrow> number \<Rightarrow> bool" where
  "py_eq (PInt a) (PInt b) = (a = b)"
| "py_eq a b = pf_eq (py_float a) (py_float b)"

section \<open>DG\_controller.py\<close>

subsection \<open>Small utilities\<close>

text \<open>\<^verbatim>\<open>def clamp(x, lo, hi): return max(lo, min(hi, x))\<close>\<close>

definition clamp :: "real \<Rightarrow> real \<Rightarrow> real \<Rightarrow> real" where
  "clamp x lo hi = max lo (min hi x)"

text \<open>Float division: Python raises \<^verbatim>\<open>ZeroDivisionError\<close> on a zero divisor.\<close>

definition py_div :: "real \<Rightarrow> real \<Rightarrow> error + real" where
  "py_div a b = (if b = 0 then Inl ZeroDivisionError else Inr (a / b))"



record RateLimiter =
  rl_up :: real
  rl_down :: real
  rl_y :: "real option"

text \<open>\<^verbatim>\<open>RateLimiter.step\<close>: returns the output and the limiter with its new state.\<close>

definition RateLimiter_step :: "RateLimiter \<Rightarrow> real \<Rightarrow> real \<Rightarrow> real \<times> RateLimiter" where
  "RateLimiter_step r x dt =
     (case rl_y r of
        None \<Rightarrow> (x, r\<lparr>rl_y := Some x\<rparr>)
      | Some y0 \<Rightarrow>
          let dy = x - y0;
              max_up = rl_up r * dt;
              max_dn = rl_down r * dt;
              dy' = (if dy > max_up then max_up
                     else if dy < - max_dn then - max_dn
                     else dy);
              y1 = y0 + dy'
          in (y1, r\<lparr>rl_y := Some y1\<rparr>))"

subsection \<open>Measurements, commands, configuration\<close>




record DGControllerConfig =
  Wref_base :: real
  Pref_base :: real
  Wref_min :: real
  Wref_max :: real
  Pref_min :: real
  Pref_max :: real
  WPU_target :: real
  WPU_deadband :: real
  SMACH_limit :: real
  SMACH_margin :: real
  Vmin_pu :: real
  Vsoft_pu :: real
  k_pref_wpu :: real
  k_wref_wpu :: real
  meas_lpf_tau :: real
  wref_rate_up :: real
  wref_rate_down :: real
  pref_rate_up :: real
  pref_rate_down :: real
  max_stale_s :: real
  overload_soft_drop :: real
  overload_hard_after_s :: real
  reset_pulse_s :: real

text \<open>The defaults of the dataclass \<^verbatim>\<open>DGControllerConfig\<close>.\<close>

definition DGControllerConfig_default :: DGControllerConfig where
  "DGControllerConfig_default =
     \<lparr> Wref_base = 1, Pref_base = 0,
       Wref_min = 98 / 100, Wref_max = 102 / 100,
       Pref_min = - 1, Pref_max = 1,
       WPU_target = 1, WPU_deadband = 15 / 10000,
       SMACH_limit = 150 / 100, SMACH_margin = 5 / 100,
       Vmin_pu = 92 / 100, Vsoft_pu = 96 / 100,
       k_pref_wpu = 2, k_wref_wpu = 2 / 10,
       meas_lpf_tau = 15 / 100,
       wref_rate_up = 1 / 100, wref_rate_down = 2 / 100,
       pref_rate_up = 20 / 100, pref_rate_down = 30 / 100,
       max_stale_s = 50 / 100,
       overload_soft_drop = 30 / 100, overload_hard_after_s = 1,
       reset_pulse_s = 10 / 100 \<rparr>"

subsection \<open>The controller\<close>









definition apply_voltage_guard :: "DGControllerConfig \<Rightarrow> real \<Rightarrow> real \<Rightarrow> error + real" where
  "apply_voltage_guard k pref_cmd vpu =
     (if vpu < Vmin_pu k then Inr (min pref_cmd (Pref_base k))
      else if vpu < Vsoft_pu k \<and> pref_cmd > Pref_base k then
        (let extra = pref_cmd - Pref_base k
         in case py_div (vpu - Vmin_pu k) (Vsoft_pu k - Vmin_pu k) of
              Inl e \<Rightarrow> Inl e
            | Inr q \<Rightarrow> Inr (Pref_base k + extra * clamp q 0 1))
      else Inr pref_cmd)"







section \<open>Comms/gtnet\_channel.py\<close>

subsection \<open>Channel description, statistics, state\<close>

record ChannelSpec =
  spec_name :: string
  ip :: string
  port :: int
  cmd_types :: "string list"
  meas_names :: "string list"
  meas_fmt :: string
  cmd_names :: "string list"
  cmd_fmt :: string
  ready_to_send_name :: "string option"
  require_ready_to_send :: bool
  connect_timeout_s :: real
  tcp_nodelay :: bool
  reconnect :: bool
  reconnect_initial_backoff_s :: real
  reconnect_max_backoff_s :: real

record ChannelStats =
  connected :: bool
  last_connect_time :: real
  last_disconnect_time :: real
  rx_frames :: nat
  tx_frames :: nat
  rx_errors :: nat
  tx_errors :: nat
  reconnects :: nat
  last_rx_time :: real
  last_tx_time :: real

text \<open>
  The state of a \<^verbatim>\<open>GtnetChannel\<close>. \<open>sock_open\<close> stands for \<^verbatim>\<open>self._sock is not None\<close>;
  the two dictionaries are maps from field names to numbers. Threads, locks, the
  logger and the telemetry listener are not part of the state.
\<close>

record GtnetChannel =
  spec :: ChannelSpec
  tx_keepalive_s :: "real option"
  tx_period_s :: real
  enable_tx :: bool
  sock_open :: bool
  latest_meas :: "string \<rightharpoonup> number"
  cmd_state :: "string \<rightharpoonup> number"
  dirty :: bool
  stats :: ChannelStats

text \<open>
  \<^verbatim>\<open>GtnetChannel.__init__\<close>: every command name paired with a type starts at \<^verbatim>\<open>0\<close>
  (type \<^verbatim>\<open>"int"\<close>) or \<^verbatim>\<open>0.0\<close> (any other type); nothing is sent on start-up.
\<close>

definition GtnetChannel_init ::
  "ChannelSpec \<Rightarrow> real option \<Rightarrow> real \<Rightarrow> bool \<Rightarrow> GtnetChannel" where
  "GtnetChannel_init sp keepalive period tx =
     \<lparr> spec = sp,
       tx_keepalive_s = keepalive,
       tx_period_s = period,
       enable_tx = tx,
       sock_open = False,
       latest_meas = Map.empty,
       cmd_state = fold (\<lambda>(n, typ) m. m(n \<mapsto> (if typ = ''int'' then PInt 0 else PFloat (Fin 0))))
                     (zip (cmd_names sp) (cmd_types sp)) Map.empty,
       dirty = False,
       stats = \<lparr> connected = False, last_connect_time = 0, last_disconnect_time = 0,
                 rx_frames = 0, tx_frames = 0, rx_errors = 0, tx_errors = 0,
                 reconnects = 0, last_rx_time = 0, last_tx_time = 0 \<rparr> \<rparr>"

subsection \<open>Command writes\<close>

text \<open>\<^verbatim>\<open>list.index\<close>: the first position of an element, \<^verbatim>\<open>ValueError\<close> when absent.\<close>

fun index_of :: "'a list \<Rightarrow> 'a \<Rightarrow> nat option" where
  "index_of [] k = None"
| "index_of (x # xs) k = (if x = k then Some 0 else map_option Suc (index_of xs k))"

text \<open>The coercion of \<^verbatim>\<open>set_cmd\<close>: \<^verbatim>\<open>int(v)\<close> for the type \<^verbatim>\<open>"int"\<close>, \<^verbatim>\<open>float(v)\<close> otherwise.\<close>

definition coerce :: "string \<Rightarrow> number \<Rightarrow> error + number" where
  "coerce typ v =
     (if typ = ''int'' then (case py_int v of Inl e \<Rightarrow> Inl e | Inr i \<Rightarrow> Inr (PInt i))
      else Inr (PFloat (py_float v)))"

text \<open>
  The loop of \<^verbatim>\<open>set_cmd\<close> over \<^verbatim>\<open>updates.items()\<close>, in the dictionary's order. It
  returns the exception that ended it, if any, with the command state and the
  \<^verbatim>\<open>changed\<close> flag as they are at that moment: what the loop wrote before raising
  stays written.
\<close>

fun set_cmd_loop ::
  "ChannelSpec \<Rightarrow> (string \<times> number) list \<Rightarrow> (string \<rightharpoonup> number) \<Rightarrow> bool
     \<Rightarrow> error option \<times> (string \<rightharpoonup> number) \<times> bool" where
  "set_cmd_loop sp [] st changed = (None, st, changed)"
| "set_cmd_loop sp ((k, v) # rest) st changed =
     (case st k of
        None \<Rightarrow> (Some (KeyError k), st, changed)
      | Some old \<Rightarrow>
          (case index_of (cmd_names sp) k of
             None \<Rightarrow> (Some ValueError, st, changed)
           | Some idx \<Rightarrow>
               if idx \<ge> length (cmd_types sp) then (Some IndexError, st, changed)
               else (case coerce (cmd_types sp ! idx) v of
                       Inl e \<Rightarrow> (Some e, st, changed)
                     | Inr nv \<Rightarrow>
                         if \<not> py_eq old nv then set_cmd_loop sp rest (st(k \<mapsto> nv)) True
                         else set_cmd_loop sp rest st changed)))"

text \<open>
  \<^verbatim>\<open>GtnetChannel.set_cmd(updates)\<close>: the outcome (\<open>None\<close> for a normal return) and the
  channel afterwards. The dirty flag is set after the loop, so only on a normal return.
\<close>

definition set_cmd :: "GtnetChannel \<Rightarrow> (string \<times> number) list \<Rightarrow> error option \<times> GtnetChannel" where
  "set_cmd ch updates =
     (case set_cmd_loop (spec ch) updates (cmd_state ch) False of
        (Some e, st, changed) \<Rightarrow> (Some e, ch\<lparr>cmd_state := st\<rparr>)
      | (None, st, changed) \<Rightarrow>
          (None, if changed then ch\<lparr>cmd_state := st, dirty := True\<rparr>
                 else ch\<lparr>cmd_state := st\<rparr>))"

subsection \<open>Connection management\<close>

definition close_socket :: "GtnetChannel \<Rightarrow> GtnetChannel" where
  "close_socket ch = ch\<lparr>sock_open := False\<rparr>"

text \<open>\<^verbatim>\<open>_handle_disconnect\<close>; \<open>t\<close> is the reading of the clock.\<close>

definition handle_disconnect :: "GtnetChannel \<Rightarrow> real \<Rightarrow> GtnetChannel" where
  "handle_disconnect ch t =
     (close_socket (ch\<lparr>stats := (stats ch)\<lparr>connected := False, last_disconnect_time := t\<rparr>\<rparr>))
       \<lparr>dirty := True\<rparr>"

text \<open>
  What one loop iteration meets outside the program: the outcomes of the connection
  attempts that \<^verbatim>\<open>_ensure_connected\<close> makes before the stop event is set, whether
  \<^verbatim>\<open>sendall\<close> succeeds, and the readings of the clock.
\<close>

record io_env =
  env_connects :: "bool list"
  env_t_connect :: real
  env_now :: real
  env_send_ok :: bool
  env_t_disconnect :: real

text \<open>
  The \<^verbatim>\<open>while\<close> loop of \<^verbatim>\<open>_ensure_connected\<close>: a successful \<^verbatim>\<open>_connect\<close> opens the
  socket and counts a reconnect; a failed one ends the loop when reconnecting is off,
  and is followed by the next attempt otherwise.
\<close>

fun connect_loop :: "real \<Rightarrow> bool list \<Rightarrow> GtnetChannel \<Rightarrow> bool \<times> GtnetChannel" where
  "connect_loop t [] ch = (False, ch)"
| "connect_loop t (ok # rest) ch =
     (if ok then
        (True, ch\<lparr>stats := (stats ch)\<lparr>connected := True, last_connect_time := t,
                                         reconnects := reconnects (stats ch) + 1\<rparr>,
                   sock_open := True\<rparr>)
      else if \<not> reconnect (spec ch) then (False, ch)
      else connect_loop t rest ch)"

definition ensure_connected :: "io_env \<Rightarrow> GtnetChannel \<Rightarrow> bool \<times> GtnetChannel" where
  "ensure_connected env ch =
     (if sock_open ch then (True, ch)
      else connect_loop (env_t_connect env) (env_connects env) ch)"

subsection \<open>Transmit gating and the transmit loop\<close>

text \<open>\<^verbatim>\<open>int(rts)\<close> for \<^verbatim>\<open>rts = meas.get(name, None)\<close>: \<^verbatim>\<open>int(None)\<close> is a \<^verbatim>\<open>TypeError\<close>.\<close>

definition int_of_rts :: "number option \<Rightarrow> error + int" where
  "int_of_rts rts = (case rts of None \<Rightarrow> Inl TypeError | Some v \<Rightarrow> py_int v)"

text \<open>
  \<^verbatim>\<open>_ok_to_send\<close>. A missing or empty gating name, or gating switched off, lets every
  frame through. The \<^verbatim>\<open>try\<close> block turns every exception of \<^verbatim>\<open>int(rts)\<close> into
  \<^verbatim>\<open>False\<close>.
\<close>

definition ok_to_send :: "GtnetChannel \<Rightarrow> error + bool" where
  "ok_to_send ch =
     (case ready_to_send_name (spec ch) of
        None \<Rightarrow> Inr True
      | Some n \<Rightarrow>
          if n = [] \<or> \<not> require_ready_to_send (spec ch) then Inr True
          else (case int_of_rts (latest_meas ch n) of
                  Inl e \<Rightarrow> Inr False
                | Inr i \<Rightarrow> Inr (i = 1)))"

text \<open>\<^verbatim>\<open>[self._cmd_state[name] for name in self.spec.cmd_names]\<close>\<close>

fun lookup_all :: "(string \<rightharpoonup> number) \<Rightarrow> string list \<Rightarrow> error + number list" where
  "lookup_all st [] = Inr []"
| "lookup_all st (n # ns) =
     (case st n of
        None \<Rightarrow> Inl (KeyError n)
      | Some v \<Rightarrow> (case lookup_all st ns of Inl e \<Rightarrow> Inl e | Inr vs \<Rightarrow> Inr (v # vs)))"

text \<open>
  \<^verbatim>\<open>_build_cmd_payload\<close>. \<^verbatim>\<open>struct.Struct(cmd_fmt).pack\<close> belongs to the Python
  library; it is the parameter \<open>pack\<close>, from the values in the order of \<^verbatim>\<open>cmd_names\<close>
  to the bytes of the frame or an exception.
\<close>

definition build_cmd_payload ::
  "(number list \<Rightarrow> error + 'p) \<Rightarrow> GtnetChannel \<Rightarrow> error + 'p" where
  "build_cmd_payload pack ch =
     (case lookup_all (cmd_state ch) (cmd_names (spec ch)) of
        Inl e \<Rightarrow> Inl e
      | Inr vals \<Rightarrow> pack vals)"

datatype loop_status = Running | Stopped | Crashed error

text \<open>
  One iteration of \<^verbatim>\<open>_tx_loop\<close> with the stop event not set. It takes the channel and
  the local \<^verbatim>\<open>last_tx\<close>, and returns how the loop goes on, the channel, \<^verbatim>\<open>last_tx\<close> and
  the frame handed to \<^verbatim>\<open>sendall\<close> when the call succeeded. \<^verbatim>\<open>_ok_to_send\<close> is called
  outside the \<^verbatim>\<open>try\<close> block: an exception of it would end the thread.
\<close>

definition tx_tick ::
  "(number list \<Rightarrow> error + 'p) \<Rightarrow> io_env \<Rightarrow> GtnetChannel \<times> real
     \<Rightarrow> loop_status \<times> GtnetChannel \<times> real \<times> 'p option" where
  "tx_tick pack env s =
     (let (ch, last_tx) = s;
          (conn, ch1) = ensure_connected env ch
      in if \<not> conn then (Stopped, ch1, last_tx, None)
         else
           (let now = env_now env;
                should_keepalive = (case tx_keepalive_s ch1 of
                                      None \<Rightarrow> False
                                    | Some ka \<Rightarrow> now - last_tx \<ge> ka);
                should_send = (dirty ch1 \<or> should_keepalive)
            in if \<not> should_send then (Running, ch1, last_tx, None)
               else
                 (case ok_to_send ch1 of
                    Inl e \<Rightarrow> (Crashed e, ch1, last_tx, None)
                  | Inr False \<Rightarrow> (Running, ch1, last_tx, None)
                  | Inr True \<Rightarrow>
                      (case build_cmd_payload pack ch1 of
                         Inr payload \<Rightarrow>
                           if env_send_ok env then
                             (Running,
                              ch1\<lparr>dirty := False,
                                  stats := (stats ch1)\<lparr>tx_frames := tx_frames (stats ch1) + 1,
                                                        last_tx_time := now\<rparr>\<rparr>,
                              now, Some payload)
                           else
                             (Running,
                              handle_disconnect
                                (ch1\<lparr>stats := (stats ch1)\<lparr>tx_errors := tx_errors (stats ch1) + 1\<rparr>\<rparr>)
                                (env_t_disconnect env),
                              last_tx, None)
                       | Inl e \<Rightarrow>
                           (Running,
                            handle_disconnect
                              (ch1\<lparr>stats := (stats ch1)\<lparr>tx_errors := tx_errors (stats ch1) + 1\<rparr>\<rparr>)
                              (env_t_disconnect env),
                            last_tx, None)))))"


subsection \<open>The running channel\<close>







subsection \<open>Comms/channel\_specs.py: channel 1\<close>

definition CHANNEL_1 :: ChannelSpec where
  "CHANNEL_1 =
     \<lparr> spec_name = ''CH1'',
       ip = ''172.24.4.3'',
       port = 7000,
       cmd_types = [''int'', ''int'', ''float'', ''int''],
       meas_names = [''NewDataFlag_1_'', ''NewDataSeq_1_'', ''ReadyToSend_1_'',
                     ''SocketOverflow_1_'', ''InvalidMsg_1_'', ''MODE'', ''PGRID'', ''QGRID'',
                     ''N650RMSPU'', ''IGRIDA'', ''IGRIDB'', ''IGRIDC'', ''GRID''],
       meas_fmt = ''>iiiiiiffffffi'',
       cmd_names = [''REM_GRID'', ''REM_LGFLTx'', ''REM_LGFTIMEx'', ''REM_LGFLTxType''],
       cmd_fmt = ''>iifi'',
       ready_to_send_name = Some ''ReadyToSend_1_'',
       require_ready_to_send = True,
       connect_timeout_s = 5,
       tcp_nodelay = True,
       reconnect = True,
       reconnect_initial_backoff_s = 1 / 2,
       reconnect_max_backoff_s = 5 \<rparr>"

section \<open>Comms/comms\_disruptions.py\<close>

text \<open>\<^verbatim>\<open>_clamp(x, lo, hi)\<close>: \<^verbatim>\<open>lo if x < lo else hi if x > hi else x\<close>\<close>

definition disrupt_clamp :: "real \<Rightarrow> real \<Rightarrow> real \<Rightarrow> real" where
  "disrupt_clamp x lo hi = (if x < lo then lo else if x > hi then hi else x)"

record DataDegradationConfig =
  dd_enabled :: bool
  dd_drop_prob :: real
  dd_freeze :: bool
  dd_fixed_delay_s :: real
  dd_jitter_s :: real
  dd_add_noise :: bool
  dd_noise_std :: real
  dd_keys :: "string set option"

record AutonomyDegradationConfig =
  ad_enabled :: bool
  ad_block_all :: bool
  ad_drop_prob :: real
  ad_fixed_delay_s :: real
  ad_jitter_s :: real

text \<open>The defaults of the two dataclasses: pass-through.\<close>

definition DataDegradationConfig_default :: DataDegradationConfig where
  "DataDegradationConfig_default =
     \<lparr> dd_enabled = False, dd_drop_prob = 0, dd_freeze = False, dd_fixed_delay_s = 0,
       dd_jitter_s = 0, dd_add_noise = False, dd_noise_std = 0, dd_keys = None \<rparr>"

definition AutonomyDegradationConfig_default :: AutonomyDegradationConfig where
  "AutonomyDegradationConfig_default =
     \<lparr> ad_enabled = False, ad_block_all = False, ad_drop_prob = 0,
       ad_fixed_delay_s = 0, ad_jitter_s = 0 \<rparr>"

text \<open>
  A telemetry frame is a dictionary in insertion order: an association list. The
  state of a \<^verbatim>\<open>ChannelDisruptor\<close> is its two configuration dictionaries and the last
  frame seen per channel; the two sinks, the logger and the lock are not part of it.
\<close>

type_synonym frame = "(string \<times> number) list"

record ChannelDisruptor =
  data_cfg :: "string \<rightharpoonup> DataDegradationConfig"
  auto_cfg :: "string \<rightharpoonup> AutonomyDegradationConfig"
  last_meas :: "string \<rightharpoonup> frame"

definition ChannelDisruptor_init :: ChannelDisruptor where
  "ChannelDisruptor_init =
     \<lparr> data_cfg = Map.empty, auto_cfg = Map.empty, last_meas = Map.empty \<rparr>"

definition set_data_degraded ::
  "ChannelDisruptor \<Rightarrow> string \<Rightarrow> DataDegradationConfig \<Rightarrow> ChannelDisruptor" where
  "set_data_degraded d channel_name c =
     d\<lparr>data_cfg := (data_cfg d)(channel_name \<mapsto>
          c\<lparr>dd_drop_prob := disrupt_clamp (dd_drop_prob c) 0 1,
            dd_fixed_delay_s := max 0 (dd_fixed_delay_s c),
            dd_jitter_s := max 0 (dd_jitter_s c),
            dd_noise_std := max 0 (dd_noise_std c)\<rparr>)\<rparr>"

definition set_autonomy_degraded ::
  "ChannelDisruptor \<Rightarrow> string \<Rightarrow> AutonomyDegradationConfig \<Rightarrow> ChannelDisruptor" where
  "set_autonomy_degraded d channel_name c =
     d\<lparr>auto_cfg := (auto_cfg d)(channel_name \<mapsto>
          c\<lparr>ad_drop_prob := disrupt_clamp (ad_drop_prob c) 0 1,
            ad_fixed_delay_s := max 0 (ad_fixed_delay_s c),
            ad_jitter_s := max 0 (ad_jitter_s c)\<rparr>)\<rparr>"

definition clear_channel :: "ChannelDisruptor \<Rightarrow> string \<Rightarrow> ChannelDisruptor" where
  "clear_channel d channel_name =
     d\<lparr>data_cfg := (data_cfg d)(channel_name := None),
       auto_cfg := (auto_cfg d)(channel_name := None)\<rparr>"

definition clear_all :: "ChannelDisruptor \<Rightarrow> ChannelDisruptor" where
  "clear_all d = d\<lparr>data_cfg := Map.empty, auto_cfg := Map.empty\<rparr>"

text \<open>
  What a call draws from the random generator: the value of \<^verbatim>\<open>random()\<close> (a number
  of the interval \<open>[0, 1)\<close>), the successive values of \<^verbatim>\<open>gauss(0, noise_std)\<close>, and the
  value of \<^verbatim>\<open>uniform(-jitter_s, jitter_s)\<close>. A draw is consumed only where the code
  makes it.
\<close>

record rng_draws =
  u_random :: real
  u_gauss :: "nat \<Rightarrow> real"
  u_uniform :: real

text \<open>
  What reaches a sink: nothing, a call made before the method returns, or a call
  made by a new thread after a delay.
\<close>

datatype 'a delivery = NoDelivery | Immediate 'a | Delayed real 'a

text \<open>\<^verbatim>\<open>float(v) + g\<close> for a finite draw \<open>g\<close>.\<close>

fun pf_add_real :: "pyfloat \<Rightarrow> real \<Rightarrow> pyfloat" where
  "pf_add_real (Fin r) g = Fin (r + g)"
| "pf_add_real PosInf g = PosInf"
| "pf_add_real NegInf g = NegInf"
| "pf_add_real NaN g = NaN"

text \<open>The noise loop over \<^verbatim>\<open>list(out.items())\<close>; \<open>i\<close> counts the draws made so far.\<close>

fun noise_loop :: "string set option \<Rightarrow> (nat \<Rightarrow> real) \<Rightarrow> nat \<Rightarrow> frame \<Rightarrow> frame" where
  "noise_loop keys g i [] = []"
| "noise_loop keys g i ((k, v) # rest) =
     (if (case keys of None \<Rightarrow> False | Some ks \<Rightarrow> k \<notin> ks)
      then (k, v) # noise_loop keys g i rest
      else (k, PFloat (pf_add_real (py_float v) (g i))) # noise_loop keys g (Suc i) rest)"

text \<open>
  \<^verbatim>\<open>ChannelDisruptor.on_meas(channel_name, meas)\<close>: the disruptor afterwards and what
  reaches the telemetry sink. The incoming frame is stored as the last frame of the
  channel before anything else is looked at.
\<close>

definition on_meas ::
  "ChannelDisruptor \<Rightarrow> string \<Rightarrow> frame \<Rightarrow> rng_draws \<Rightarrow> ChannelDisruptor \<times> frame delivery" where
  "on_meas d channel_name meas draws =
     (let c = (case data_cfg d channel_name of
                 None \<Rightarrow> DataDegradationConfig_default
               | Some c' \<Rightarrow> c');
          d1 = d\<lparr>last_meas := (last_meas d)(channel_name \<mapsto> meas)\<rparr>
      in if \<not> dd_enabled c then (d1, Immediate meas)
         else if dd_freeze c then
           (case last_meas d1 channel_name of
              None \<Rightarrow> (d1, NoDelivery)
            | Some frozen \<Rightarrow> (d1, Immediate frozen))
         else if dd_drop_prob c > 0 \<and> u_random draws < dd_drop_prob c then (d1, NoDelivery)
         else
           (let out = (if dd_add_noise c \<and> dd_noise_std c > 0
                       then noise_loop (dd_keys c) (u_gauss draws) 0 meas
                       else meas);
                delay = (if dd_jitter_s c > 0
                         then max 0 (dd_fixed_delay_s c + u_uniform draws)
                         else dd_fixed_delay_s c)
            in if delay \<le> 0 then (d1, Immediate out) else (d1, Delayed delay out)))"

text \<open>
  \<^verbatim>\<open>ChannelDisruptor.emit_cmd(channel_obj, channel_name, updates, note)\<close>: what
  reaches the command sink. The disruptor itself is not changed.
\<close>

definition emit_cmd ::
  "ChannelDisruptor \<Rightarrow> 'c \<Rightarrow> string \<Rightarrow> frame \<Rightarrow> string \<Rightarrow> rng_draws
     \<Rightarrow> ('c \<times> string \<times> frame \<times> string) delivery" where
  "emit_cmd d channel_obj channel_name updates cmd_note draws =
     (let c = (case auto_cfg d channel_name of
                 None \<Rightarrow> AutonomyDegradationConfig_default
               | Some c' \<Rightarrow> c')
      in if \<not> ad_enabled c then Immediate (channel_obj, channel_name, updates, cmd_note)
         else if ad_block_all c then NoDelivery
         else if ad_drop_prob c > 0 \<and> u_random draws < ad_drop_prob c then NoDelivery
         else
           (let delay = (if ad_jitter_s c > 0
                         then max 0 (ad_fixed_delay_s c + u_uniform draws)
                         else ad_fixed_delay_s c)
            in if delay \<le> 0 then Immediate (channel_obj, channel_name, updates, cmd_note)
               else Delayed delay (channel_obj, channel_name, updates, cmd_note)))"

section \<open>run\_islanding\_dg\_load\_test.py: the stability predicate\<close>

subsection \<open>Comparison and arithmetic of Python numbers\<close>

text \<open>
  \<^verbatim>\<open>a > b\<close> and \<^verbatim>\<open>a < b\<close> compare values, an integer with a float exactly; every
  comparison with a NaN is false.
\<close>

fun pf_gt :: "pyfloat \<Rightarrow> pyfloat \<Rightarrow> bool" where
  "pf_gt (Fin a) (Fin b) = (a > b)"
| "pf_gt (Fin a) NegInf = True"
| "pf_gt PosInf (Fin b) = True"
| "pf_gt PosInf NegInf = True"
| "pf_gt _ _ = False"

fun py_gt :: "number \<Rightarrow> number \<Rightarrow> bool" where
  "py_gt (PInt a) (PInt b) = (a > b)"
| "py_gt a b = pf_gt (py_float a) (py_float b)"

definition py_lt :: "number \<Rightarrow> number \<Rightarrow> bool" where
  "py_lt a b = py_gt b a"

text \<open>
  \<^verbatim>\<open>max(xs)\<close> and \<^verbatim>\<open>min(xs)\<close> of a non-empty list keep the first element until a later
  one compares greater (smaller); the arguments are the first element and the rest.
\<close>

definition py_max :: "number \<Rightarrow> number list \<Rightarrow> number" where
  "py_max x xs = fold (\<lambda>item m. if py_gt item m then item else m) xs x"

definition py_min :: "number \<Rightarrow> number list \<Rightarrow> number" where
  "py_min x xs = fold (\<lambda>item m. if py_lt item m then item else m) xs x"

text \<open>
  \<^verbatim>\<open>float(v)\<close> of an integer rounds it to the nearest double and raises
  \<^verbatim>\<open>OverflowError\<close> when the integer is beyond the range of a double. The predicate
  is defined for any such conversion: it is the parameter \<open>conv\<close>, from an integer to
  the float or the exception. \<^verbatim>\<open>float(v)\<close> of a float is the float itself.
\<close>

definition float_of :: "(int \<Rightarrow> error + pyfloat) \<Rightarrow> number \<Rightarrow> error + pyfloat" where
  "float_of conv v = (case v of PInt i \<Rightarrow> conv i | PFloat f \<Rightarrow> Inr f)"

text \<open>\<^verbatim>\<open>[float(v) for v in vals]\<close>: the first conversion that raises ends the comprehension.\<close>

fun float_all :: "(int \<Rightarrow> error + pyfloat) \<Rightarrow> number list \<Rightarrow> error + number list" where
  "float_all conv [] = Inr []"
| "float_all conv (v # vs) =
     (case float_of conv v of
        Inl e \<Rightarrow> Inl e
      | Inr f \<Rightarrow> (case float_all conv vs of Inl e \<Rightarrow> Inl e | Inr fs \<Rightarrow> Inr (PFloat f # fs)))"

text \<open>
  \<^verbatim>\<open>a - b\<close>: an integer when both are integers; otherwise both are converted to
  floats, which raises for an integer beyond the range, and the floats are subtracted.
\<close>

fun pf_sub :: "pyfloat \<Rightarrow> pyfloat \<Rightarrow> pyfloat" where
  "pf_sub (Fin a) (Fin b) = Fin (a - b)"
| "pf_sub NaN _ = NaN"
| "pf_sub _ NaN = NaN"
| "pf_sub PosInf PosInf = NaN"
| "pf_sub NegInf NegInf = NaN"
| "pf_sub PosInf _ = PosInf"
| "pf_sub NegInf _ = NegInf"
| "pf_sub (Fin a) PosInf = NegInf"
| "pf_sub (Fin a) NegInf = PosInf"

definition py_sub :: "(int \<Rightarrow> error + pyfloat) \<Rightarrow> number \<Rightarrow> number \<Rightarrow> error + number" where
  "py_sub conv a b =
     (case (a, b) of
        (PInt x, PInt y) \<Rightarrow> Inr (PInt (x - y))
      | _ \<Rightarrow>
          (case float_of conv a of
             Inl e \<Rightarrow> Inl e
           | Inr fa \<Rightarrow>
               (case float_of conv b of
                  Inl e \<Rightarrow> Inl e
                | Inr fb \<Rightarrow> Inr (PFloat (pf_sub fa fb)))))"

fun py_abs :: "number \<Rightarrow> number" where
  "py_abs (PInt a) = PInt \<bar>a\<bar>"
| "py_abs (PFloat (Fin r)) = PFloat (Fin \<bar>r\<bar>)"
| "py_abs (PFloat PosInf) = PFloat PosInf"
| "py_abs (PFloat NegInf) = PFloat PosInf"
| "py_abs (PFloat NaN) = PFloat NaN"

subsection \<open>The predicate\<close>

text \<open>
  The loop of \<^verbatim>\<open>_max_step\<close>: \<open>prev\<close> is \<^verbatim>\<open>values[i - 1]\<close>, \<open>m\<close> the largest step so
  far. A subtraction that raises ends the loop.
\<close>

fun max_step_loop ::
  "(int \<Rightarrow> error + pyfloat) \<Rightarrow> number \<Rightarrow> number list \<Rightarrow> number \<Rightarrow> error + number" where
  "max_step_loop conv prev [] m = Inr m"
| "max_step_loop conv prev (v # vs) m =
     (case py_sub conv v prev of
        Inl e \<Rightarrow> Inl e
      | Inr d \<Rightarrow>
          (let dv = py_abs d
           in max_step_loop conv v vs (if py_gt dv m then dv else m)))"

definition max_step :: "(int \<Rightarrow> error + pyfloat) \<Rightarrow> number list \<Rightarrow> error + number" where
  "max_step conv values =
     (case values of
        [] \<Rightarrow> Inr (PFloat (Fin 0))
      | v # vs \<Rightarrow> max_step_loop conv v vs (PFloat (Fin 0)))"

text \<open>
  A sample is a dictionary from signal names to numbers or \<^verbatim>\<open>None\<close>; the predicate
  reads it through \<^verbatim>\<open>s.get(name)\<close> only, which does not tell a missing key from a
  \<^verbatim>\<open>None\<close>. The limits of a signal are the dictionary
  \<^verbatim>\<open>{"span": .., "step": .., "required": ..}\<close>, any key of which may be missing.
\<close>

type_synonym sample = "string \<rightharpoonup> number"

record limit_cfg =
  lim_span :: "real option"
  lim_step :: "real option"
  lim_required :: bool

text \<open>\<^verbatim>\<open>[s[name] for s in samples if s.get(name) is not None]\<close>\<close>

definition present_vals :: "string \<Rightarrow> sample list \<Rightarrow> number list" where
  "present_vals signal samples = List.map_filter (\<lambda>s. s signal) samples"

text \<open>The first loop over \<^verbatim>\<open>limits.items()\<close>: presence of the required signals.\<close>

fun required_ok :: "sample list \<Rightarrow> (string \<times> limit_cfg) list \<Rightarrow> bool" where
  "required_ok samples [] = True"
| "required_ok samples ((signal, c) # rest) =
     (if lim_required c
         \<and> length (present_vals signal samples) < max 5 (length samples div 2)
      then False
      else required_ok samples rest)"

text \<open>\<^verbatim>\<open>if ov and max(ov) != 0: return False\<close>, as the condition of the \<^verbatim>\<open>if\<close>.\<close>

definition flag_asserted :: "string \<Rightarrow> sample list \<Rightarrow> bool" where
  "flag_asserted flag samples =
     (case present_vals flag samples of
        [] \<Rightarrow> False
      | v # vs \<Rightarrow> \<not> py_eq (py_max v vs) (PInt 0))"

text \<open>
  The second loop over \<^verbatim>\<open>limits.items()\<close>: span and step of every signal. An
  exception of a conversion or a subtraction leaves the predicate.
\<close>

fun limits_ok ::
  "(int \<Rightarrow> error + pyfloat) \<Rightarrow> sample list \<Rightarrow> (string \<times> limit_cfg) list \<Rightarrow> error + bool" where
  "limits_ok conv samples [] = Inr True"
| "limits_ok conv samples ((signal, c) # rest) =
     (case present_vals signal samples of
        [] \<Rightarrow> limits_ok conv samples rest
      | PInt i # vs \<Rightarrow>
          (case lim_step c of
             Some b \<Rightarrow>
               (case float_all conv (PInt i # vs) of
                  Inl e \<Rightarrow> Inl e
                | Inr fs \<Rightarrow>
                    (case max_step conv fs of
                       Inl e \<Rightarrow> Inl e
                     | Inr step \<Rightarrow>
                         if py_gt step (PFloat (Fin b)) then Inr False
                         else limits_ok conv samples rest))
           | None \<Rightarrow> limits_ok conv samples rest)
      | PFloat f # vs \<Rightarrow>
          (case py_sub conv (py_max (PFloat f) vs) (py_min (PFloat f) vs) of
             Inl e \<Rightarrow> Inl e
           | Inr span_v \<Rightarrow>
               (case max_step conv (PFloat f # vs) of
                  Inl e \<Rightarrow> Inl e
                | Inr step \<Rightarrow>
                    if (case lim_span c of None \<Rightarrow> False | Some b \<Rightarrow> py_gt span_v (PFloat (Fin b)))
                    then Inr False
                    else if (case lim_step c of None \<Rightarrow> False
                             | Some b \<Rightarrow> py_gt step (PFloat (Fin b)))
                    then Inr False
                    else limits_ok conv samples rest)))"

text \<open>\<^verbatim>\<open>_stable_window_ok(samples, limits=limits)\<close>\<close>

definition stable_window_ok ::
  "(int \<Rightarrow> error + pyfloat) \<Rightarrow> sample list \<Rightarrow> (string \<times> limit_cfg) list \<Rightarrow> error + bool" where
  "stable_window_ok conv samples limits =
     (if length samples < 10 then Inr False
      else if \<not> required_ok samples limits then Inr False
      else if flag_asserted ''OVERLOADED'' samples then Inr False
      else if flag_asserted ''W_DETECTED'' samples then Inr False
      else limits_ok conv samples limits)"
section \<open>Properties of the controller\<close>

lemma clamp_unit: "0 \<le> clamp q 0 1 \<and> clamp q 0 1 \<le> 1"
  by (simp add: clamp_def)


text \<open>
  Claim C5. For a rate limiter with non-negative up and down rates whose state is
  initialised, and every input and every step duration \<open>dt \<ge> 0\<close>, one step moves the
  output by at most \<open>up * dt\<close> upward and at most \<open>down * dt\<close> downward from the old
  state; the output is also the new state.
\<close>

theorem RateLimiter_step_bounded:
  assumes "0 \<le> rl_up r" and "0 \<le> rl_down r" and "rl_y r = Some y_old" and "0 \<le> dt"
  shows "y_old - rl_down r * dt \<le> fst (RateLimiter_step r x dt)
       \<and> fst (RateLimiter_step r x dt) \<le> y_old + rl_up r * dt
       \<and> rl_y (snd (RateLimiter_step r x dt)) = Some (fst (RateLimiter_step r x dt))"
proof -
  have up: "0 \<le> rl_up r * dt" and dn: "0 \<le> rl_down r * dt"
    using assms by simp_all
  show ?thesis
    using up dn assms(3) by (auto simp: RateLimiter_step_def Let_def)
qed

theorem RateLimiter_step_bounded_witness:
  "fst (RateLimiter_step \<lparr>rl_up = 1 / 5, rl_down = 3 / 10, rl_y = Some 0\<rparr> 1 (1 / 20)) = 1 / 100
   \<and> 0 - (3 / 10) * (1 / 20) \<le> fst (RateLimiter_step \<lparr>rl_up = 1 / 5, rl_down = 3 / 10, rl_y = Some 0\<rparr> 1 (1 / 20))
   \<and> fst (RateLimiter_step \<lparr>rl_up = 1 / 5, rl_down = 3 / 10, rl_y = Some 0\<rparr> 1 (1 / 20)) \<le> 0 + (1 / 5) * (1 / 20)"
  using RateLimiter_step_bounded [of "\<lparr>rl_up = 1 / 5, rl_down = 3 / 10, rl_y = Some 0\<rparr>" 0 "1 / 20" 1]
  by (simp add: RateLimiter_step_def Let_def)

lemma apply_voltage_guard_le:
  "\<exists>r. apply_voltage_guard k pref_cmd vpu = Inr r \<and> r \<le> pref_cmd"
proof (cases "vpu < Vmin_pu k")
  case True
  then show ?thesis by (simp add: apply_voltage_guard_def)
next
  case hard: False
  show ?thesis
  proof (cases "vpu < Vsoft_pu k \<and> pref_cmd > Pref_base k")
    case False
    with hard show ?thesis by (auto simp: apply_voltage_guard_def)
  next
    case True
    then have den: "Vsoft_pu k - Vmin_pu k \<noteq> 0" using hard by simp
    define q where "q = (vpu - Vmin_pu k) / (Vsoft_pu k - Vmin_pu k)"
    have extra: "0 \<le> pref_cmd - Pref_base k" using True by simp
    have "(pref_cmd - Pref_base k) * clamp q 0 1 \<le> (pref_cmd - Pref_base k) * 1"
      using extra clamp_unit [of q] by (intro mult_left_mono) simp_all
    then have "Pref_base k + (pref_cmd - Pref_base k) * clamp q 0 1 \<le> pref_cmd" by simp
    then show ?thesis
      using hard True den by (simp add: apply_voltage_guard_def py_div_def Let_def q_def)
  qed
qed

text \<open>
  Claim C7. The voltage guardrail returns a value (it never raises) that is at most the
  setpoint it was given, for every setpoint and voltage; when the voltage is below the
  hard threshold \<open>Vmin_pu\<close> the value is also at most the base setpoint \<open>Pref_base\<close>.
\<close>

theorem apply_voltage_guard_never_increases:
  "\<exists>r. apply_voltage_guard k pref_cmd vpu = Inr r \<and> r \<le> pref_cmd
       \<and> (vpu < Vmin_pu k \<longrightarrow> r \<le> Pref_base k)"
proof -
  obtain r where r: "apply_voltage_guard k pref_cmd vpu = Inr r" "r \<le> pref_cmd"
    using apply_voltage_guard_le by blast
  have "r \<le> Pref_base k" if "vpu < Vmin_pu k"
    using r(1) that by (auto simp: apply_voltage_guard_def)
  with r show ?thesis by blast
qed

theorem apply_voltage_guard_never_increases_witness:
  "(9 / 10 :: real) < Vmin_pu DGControllerConfig_default
   \<and> apply_voltage_guard DGControllerConfig_default (1 / 2) (9 / 10) = Inr 0
   \<and> (0 :: real) \<le> Pref_base DGControllerConfig_default"
  using apply_voltage_guard_never_increases [of DGControllerConfig_default "1 / 2" "9 / 10"]
  by (simp add: apply_voltage_guard_def DGControllerConfig_default_def)


subsection \<open>The emitted power setpoint under heavy loading\<close>











section \<open>Properties of the channel\<close>

subsection \<open>Command writes\<close>

text \<open>
  Claim C1 fails on the code. Channel 1 receives
  \<^verbatim>\<open>set_cmd({"REM_LGFTIMEx": 0.05, "REM_LGFLItype": 1})\<close>, whose second name is not a
  command name of the channel (the call is the one of \<^verbatim>\<open>old_test_comms_basic.py\<close>).
  The call raises \<^verbatim>\<open>KeyError\<close> for the unknown name, but only after the loop has
  written \<^verbatim>\<open>REM_LGFTIMEx\<close>: the command state has changed from \<open>0.0\<close> to \<open>0.05\<close>, and
  the dirty flag is still down.
\<close>

theorem set_cmd_unknown_field_partial_update:
  "fst (set_cmd (GtnetChannel_init CHANNEL_1 None (1 / 20) True)
          [(''REM_LGFTIMEx'', PFloat (Fin (1 / 20))), (''REM_LGFLItype'', PInt 1)])
     = Some (KeyError ''REM_LGFLItype'')
   \<and> cmd_state (GtnetChannel_init CHANNEL_1 None (1 / 20) True) ''REM_LGFTIMEx''
       = Some (PFloat (Fin 0))
   \<and> cmd_state (snd (set_cmd (GtnetChannel_init CHANNEL_1 None (1 / 20) True)
          [(''REM_LGFTIMEx'', PFloat (Fin (1 / 20))), (''REM_LGFLItype'', PInt 1)]))
        ''REM_LGFTIMEx''
       = Some (PFloat (Fin (1 / 20)))
   \<and> \<not> dirty (snd (set_cmd (GtnetChannel_init CHANNEL_1 None (1 / 20) True)
          [(''REM_LGFTIMEx'', PFloat (Fin (1 / 20))), (''REM_LGFLItype'', PInt 1)]))"
  by (simp add: set_cmd_def GtnetChannel_init_def CHANNEL_1_def coerce_def)

lemma py_eq_refl: "nv \<noteq> PFloat NaN \<Longrightarrow> py_eq nv nv"
proof (cases nv)
  case (PInt i)
  then show ?thesis by simp
next
  case (PFloat f)
  assume "nv \<noteq> PFloat NaN"
  with PFloat show ?thesis by (cases f) simp_all
qed

lemma coerce_not_NaN:
  assumes "coerce typ v = Inr nv" and "v \<noteq> PFloat NaN"
  shows "nv \<noteq> PFloat NaN"
  using assms by (cases v) (auto simp: coerce_def split: if_splits sum.splits)

lemma set_cmd_loop_other:
  "k \<notin> fst ` set u \<Longrightarrow> fst (snd (set_cmd_loop sp u st c)) k = st k"
proof (induction u arbitrary: st c)
  case Nil
  then show ?case by simp
next
  case (Cons a u)
  obtain k' v where a: "a = (k', v)" by (cases a)
  from Cons.prems a have ne: "k \<noteq> k'" and rest: "k \<notin> fst ` set u" by auto
  show ?case
    using ne Cons.IH [OF rest] by (simp add: a split: option.splits sum.splits)
qed

lemma set_cmd_loop_changed_differs:
  assumes "distinct (map fst u)" and "\<forall>(k, v) \<in> set u. v \<noteq> PFloat NaN"
    and "set_cmd_loop sp u st c = (e, st', c')" and "c'" and "\<not> c"
  shows "st' \<noteq> st"
  using assms
proof (induction u arbitrary: st)
  case Nil
  then show ?case by simp
next
  case (Cons a u)
  obtain k v where a: "a = (k, v)" by (cases a)
  from Cons.prems(1) a have k: "k \<notin> fst ` set u" and d: "distinct (map fst u)" by auto
  from Cons.prems(2) a have vn: "v \<noteq> PFloat NaN" and rest: "\<forall>(k, v) \<in> set u. v \<noteq> PFloat NaN"
    by auto
  from Cons.prems(3,4,5) obtain old idx nv where
      old: "st k = Some old" and idx: "index_of (cmd_names sp) k = Some idx"
      and len: "idx < length (cmd_types sp)" and nv: "coerce (cmd_types sp ! idx) v = Inr nv"
    by (auto simp: a split: option.splits sum.splits if_splits)
  show ?case
  proof (cases "py_eq old nv")
    case True
    with Cons.prems(3) old idx len nv
    have "set_cmd_loop sp u st c = (e, st', c')" by (simp add: a)
    from Cons.IH [OF d rest this Cons.prems(4,5)] show ?thesis .
  next
    case False
    with Cons.prems(3) old idx len nv
    have run: "set_cmd_loop sp u (st(k \<mapsto> nv)) True = (e, st', c')" by (simp add: a)
    have "st' k = (st(k \<mapsto> nv)) k"
      using set_cmd_loop_other [OF k, of sp "st(k \<mapsto> nv)" True] run by simp
    then have "st' k = Some nv" by simp
    moreover have "nv \<noteq> old"
      using False py_eq_refl [OF coerce_not_NaN [OF nv vn]] by auto
    ultimately show ?thesis using old by auto
  qed
qed

lemma set_cmd_loop_settled:
  assumes "\<forall>(k, v) \<in> set u. \<exists>old idx nv. st k = Some old \<and> index_of (cmd_names sp) k = Some idx
        \<and> idx < length (cmd_types sp) \<and> coerce (cmd_types sp ! idx) v = Inr nv \<and> py_eq old nv"
  shows "set_cmd_loop sp u st c = (None, st, c)"
  using assms
proof (induction u)
  case Nil
  then show ?case by simp
next
  case (Cons a u)
  obtain k v where a: "a = (k, v)" by (cases a)
  from Cons.IH Cons.prems have "set_cmd_loop sp u st c = (None, st, c)" by simp
  with Cons.prems show ?case by (auto simp: a)
qed

lemma set_cmd_loop_settles:
  assumes "distinct (map fst u)" and "\<forall>(k, v) \<in> set u. v \<noteq> PFloat NaN"
    and "set_cmd_loop sp u st c = (None, st', c')"
  shows "\<forall>(k, v) \<in> set u. \<exists>old idx nv. st' k = Some old \<and> index_of (cmd_names sp) k = Some idx
        \<and> idx < length (cmd_types sp) \<and> coerce (cmd_types sp ! idx) v = Inr nv \<and> py_eq old nv"
  using assms
proof (induction u arbitrary: st c)
  case Nil
  then show ?case by simp
next
  case (Cons a u)
  obtain k v where a: "a = (k, v)" by (cases a)
  from Cons.prems(1) a have k: "k \<notin> fst ` set u" and d: "distinct (map fst u)" by auto
  from Cons.prems(2) a have vn: "v \<noteq> PFloat NaN" and rest: "\<forall>(k, v) \<in> set u. v \<noteq> PFloat NaN"
    by auto
  from Cons.prems(3) obtain old idx nv where
      old: "st k = Some old" and idx: "index_of (cmd_names sp) k = Some idx"
      and len: "idx < length (cmd_types sp)" and nv: "coerce (cmd_types sp ! idx) v = Inr nv"
    by (auto simp: a split: option.splits sum.splits if_splits)
  define st1 where "st1 = (if py_eq old nv then st else st(k \<mapsto> nv))"
  define c1 where "c1 = (if py_eq old nv then c else True)"
  have run: "set_cmd_loop sp u st1 c1 = (None, st', c')"
    using Cons.prems(3) old idx len nv
    by (cases "py_eq old nv") (simp_all add: a st1_def c1_def)
  have tail: "\<forall>(k, v) \<in> set u. \<exists>old idx nv. st' k = Some old
        \<and> index_of (cmd_names sp) k = Some idx \<and> idx < length (cmd_types sp)
        \<and> coerce (cmd_types sp ! idx) v = Inr nv \<and> py_eq old nv"
    by (rule Cons.IH [OF d rest run])
  have "st' k = st1 k"
    using set_cmd_loop_other [OF k, of sp st1 c1] run by simp
  moreover have "\<exists>w. st1 k = Some w \<and> py_eq w nv"
    using old py_eq_refl [OF coerce_not_NaN [OF nv vn]] by (simp add: st1_def)
  ultimately have "\<exists>w. st' k = Some w \<and> py_eq w nv" by simp
  with idx len nv tail show ?case by (auto simp: a)
qed

text \<open>
  What does hold of a failing call: a name that the command state does not hold makes
  the call raise, and a call that raises leaves the dirty flag as it was.
\<close>

lemma set_cmd_error_keeps_dirty:
  "fst (set_cmd ch u) \<noteq> None \<Longrightarrow> dirty (snd (set_cmd ch u)) = dirty ch"
  by (cases "set_cmd_loop (spec ch) u (cmd_state ch) False")
     (auto simp: set_cmd_def split: option.splits)

lemma set_cmd_loop_unknown_raises:
  "(k, v) \<in> set u \<Longrightarrow> st k = None \<Longrightarrow> fst (set_cmd_loop sp u st c) \<noteq> None"
proof (induction u arbitrary: st c)
  case Nil
  then show ?case by simp
next
  case (Cons a u)
  obtain k' v' where a: "a = (k', v')" by (cases a)
  show ?case
  proof (cases "k' = k")
    case True
    with Cons.prems(2) show ?thesis by (simp add: a)
  next
    case False
    with Cons.prems a have mem: "(k, v) \<in> set u" by auto
    have "fst (set_cmd_loop sp u (st(k' \<mapsto> nv)) c') \<noteq> None" for nv c'
    proof -
      have "(st(k' \<mapsto> nv)) k = None" using Cons.prems(2) False by simp
      with mem show ?thesis by (rule Cons.IH)
    qed
    moreover have "fst (set_cmd_loop sp u st c) \<noteq> None"
      using mem Cons.prems(2) by (rule Cons.IH)
    ultimately show ?thesis
      by (simp add: a split: option.splits sum.splits)
  qed
qed

lemma set_cmd_unknown_raises:
  assumes "(k, v) \<in> set u" and "cmd_state ch k = None"
  shows "fst (set_cmd ch u) \<noteq> None"
  using set_cmd_loop_unknown_raises [of k v u "cmd_state ch" "spec ch" False] assms
  by (cases "set_cmd_loop (spec ch) u (cmd_state ch) False")
     (auto simp: set_cmd_def split: option.splits)


text \<open>
  Claim C4, as stated, fails for a NaN: \<^verbatim>\<open>nan != nan\<close> holds, so a second
  \<^verbatim>\<open>set_cmd\<close> with the same NaN for a float field finds the stored value unequal to
  the new one and raises the dirty flag again (here after the transmit loop had
  cleared it).
\<close>

theorem set_cmd_nan_dirty_twice_counterexample:
  "fst (set_cmd (GtnetChannel_init CHANNEL_1 None (1 / 20) True)
          [(''REM_LGFTIMEx'', PFloat NaN)]) = None
   \<and> fst (set_cmd ((snd (set_cmd (GtnetChannel_init CHANNEL_1 None (1 / 20) True)
                            [(''REM_LGFTIMEx'', PFloat NaN)]))\<lparr>dirty := False\<rparr>)
          [(''REM_LGFTIMEx'', PFloat NaN)]) = None
   \<and> dirty (snd (set_cmd ((snd (set_cmd (GtnetChannel_init CHANNEL_1 None (1 / 20) True)
                            [(''REM_LGFTIMEx'', PFloat NaN)]))\<lparr>dirty := False\<rparr>)
          [(''REM_LGFTIMEx'', PFloat NaN)]))"
  by (simp add: set_cmd_def GtnetChannel_init_def CHANNEL_1_def coerce_def)

text \<open>
  Claim C4, amended. Let \<open>updates\<close> be a dictionary (its keys are distinct) none of
  whose values is a NaN. Then \<^verbatim>\<open>set_cmd\<close> raises the dirty flag only if the command
  state it leaves differs from the one it found; and when a call with \<open>updates\<close> has
  returned normally, a second call with the same \<open>updates\<close> returns normally and
  leaves the whole channel, the dirty flag included, as it finds it, whatever the
  dirty flag is by then.
\<close>

theorem set_cmd_dirty_only_on_change:
  assumes "distinct (map fst u)" and "\<forall>(k, v) \<in> set u. v \<noteq> PFloat NaN"
  shows "(dirty (snd (set_cmd ch u)) \<and> \<not> dirty ch \<longrightarrow> cmd_state (snd (set_cmd ch u)) \<noteq> cmd_state ch)
       \<and> (fst (set_cmd ch u) = None \<longrightarrow>
            set_cmd ((snd (set_cmd ch u))\<lparr>dirty := d\<rparr>) u = (None, (snd (set_cmd ch u))\<lparr>dirty := d\<rparr>))"
proof -
  obtain e st' c' where run: "set_cmd_loop (spec ch) u (cmd_state ch) False = (e, st', c')"
    by (cases "set_cmd_loop (spec ch) u (cmd_state ch) False") auto
  have A: "cmd_state (snd (set_cmd ch u)) \<noteq> cmd_state ch"
    if "dirty (snd (set_cmd ch u))" and "\<not> dirty ch"
  proof -
    from that run have c': "c'" and st: "cmd_state (snd (set_cmd ch u)) = st'"
      by (auto simp: set_cmd_def split: option.splits if_splits)
    from set_cmd_loop_changed_differs [OF assms run c'] st show ?thesis by simp
  qed
  have B: "set_cmd ((snd (set_cmd ch u))\<lparr>dirty := d\<rparr>) u = (None, (snd (set_cmd ch u))\<lparr>dirty := d\<rparr>)"
    if "fst (set_cmd ch u) = None"
  proof -
    from that run have e: "e = None" by (auto simp: set_cmd_def split: option.splits)
    have st: "cmd_state (snd (set_cmd ch u)) = st'" and sp: "spec (snd (set_cmd ch u)) = spec ch"
      using run e by (auto simp: set_cmd_def)
    have "set_cmd_loop (spec ch) u st' False = (None, st', False)"
      using set_cmd_loop_settles [OF assms] run e by (intro set_cmd_loop_settled) simp
    with st sp show ?thesis
      by (simp add: set_cmd_def)
  qed
  from A B show ?thesis by blast
qed

theorem set_cmd_dirty_only_on_change_witness:
  "distinct (map fst [(''REM_GRID'', PInt 1), (''REM_LGFTIMEx'', PFloat (Fin (1 / 20)))])
   \<and> \<not> dirty (GtnetChannel_init CHANNEL_1 None (1 / 20) True)
   \<and> dirty (snd (set_cmd (GtnetChannel_init CHANNEL_1 None (1 / 20) True)
        [(''REM_GRID'', PInt 1), (''REM_LGFTIMEx'', PFloat (Fin (1 / 20)))]))
   \<and> cmd_state (snd (set_cmd (GtnetChannel_init CHANNEL_1 None (1 / 20) True)
        [(''REM_GRID'', PInt 1), (''REM_LGFTIMEx'', PFloat (Fin (1 / 20)))]))
      \<noteq> cmd_state (GtnetChannel_init CHANNEL_1 None (1 / 20) True)
   \<and> \<not> dirty (snd (set_cmd
        ((snd (set_cmd (GtnetChannel_init CHANNEL_1 None (1 / 20) True)
           [(''REM_GRID'', PInt 1), (''REM_LGFTIMEx'', PFloat (Fin (1 / 20)))]))\<lparr>dirty := False\<rparr>)
        [(''REM_GRID'', PInt 1), (''REM_LGFTIMEx'', PFloat (Fin (1 / 20)))]))"
proof -
  have d: "dirty (snd (set_cmd (GtnetChannel_init CHANNEL_1 None (1 / 20) True)
        [(''REM_GRID'', PInt 1), (''REM_LGFTIMEx'', PFloat (Fin (1 / 20)))]))"
    and n: "\<not> dirty (GtnetChannel_init CHANNEL_1 None (1 / 20) True)"
    and ok: "fst (set_cmd (GtnetChannel_init CHANNEL_1 None (1 / 20) True)
        [(''REM_GRID'', PInt 1), (''REM_LGFTIMEx'', PFloat (Fin (1 / 20)))]) = None"
    by (simp_all add: set_cmd_def GtnetChannel_init_def CHANNEL_1_def coerce_def)
  have h1: "distinct (map fst [(''REM_GRID'', PInt 1), (''REM_LGFTIMEx'', PFloat (Fin (1 / 20)))])"
    and h2: "\<forall>(k, v) \<in> set [(''REM_GRID'', PInt 1), (''REM_LGFTIMEx'', PFloat (Fin (1 / 20)))].
               v \<noteq> PFloat NaN"
    by simp_all
  from set_cmd_dirty_only_on_change [OF h1 h2,
      of "GtnetChannel_init CHANNEL_1 None (1 / 20) True" False] d n ok h1
  show ?thesis by simp
qed


subsection \<open>Gating and retransmission\<close>

lemma connect_loop_keeps:
  "spec (snd (connect_loop t cs ch)) = spec ch"
  "latest_meas (snd (connect_loop t cs ch)) = latest_meas ch"
  "cmd_state (snd (connect_loop t cs ch)) = cmd_state ch"
  "dirty (snd (connect_loop t cs ch)) = dirty ch"
  "tx_keepalive_s (snd (connect_loop t cs ch)) = tx_keepalive_s ch"
  by (induction cs) simp_all

lemma ensure_connected_keeps:
  "spec (snd (ensure_connected env ch)) = spec ch"
  "latest_meas (snd (ensure_connected env ch)) = latest_meas ch"
  "cmd_state (snd (ensure_connected env ch)) = cmd_state ch"
  "dirty (snd (ensure_connected env ch)) = dirty ch"
  "tx_keepalive_s (snd (ensure_connected env ch)) = tx_keepalive_s ch"
  by (simp_all add: ensure_connected_def connect_loop_keeps)

lemma ok_to_send_cong:
  "spec a = spec b \<Longrightarrow> latest_meas a = latest_meas b \<Longrightarrow> ok_to_send a = ok_to_send b"
  by (auto simp: ok_to_send_def split: option.splits)


lemma tx_tick_gate_closed:
  assumes "ok_to_send ch = Inr False"
  shows "snd (snd (snd (tx_tick pack env (ch, last_tx)))) = None"
proof -
  obtain conn ch1 where ec: "ensure_connected env ch = (conn, ch1)"
    by (cases "ensure_connected env ch")
  have "ok_to_send ch1 = Inr False"
    using ok_to_send_cong [of ch1 ch] ensure_connected_keeps(1,2) [of env ch] ec assms by simp
  then show ?thesis
    by (simp add: tx_tick_def ec Let_def)
qed

text \<open>
  Claim C10. When the channel's description names a gating field and
  \<^verbatim>\<open>require_ready_to_send\<close> is true, \<^verbatim>\<open>_ok_to_send\<close> returns a value (it never
  raises), and the value is true exactly when the latest telemetry holds the gating
  field with a value that \<^verbatim>\<open>int\<close> turns into \<open>1\<close>. When the field is absent (as
  before the first frame) or its value cannot be turned into an integer, an iteration
  of the transmit loop sends nothing.
\<close>

theorem ok_to_send_gating:
  assumes "ready_to_send_name (spec ch) = Some n" and "n \<noteq> []"
    and "require_ready_to_send (spec ch)"
  shows "ok_to_send ch = Inr (\<exists>v. latest_meas ch n = Some v \<and> py_int v = Inr 1)
       \<and> (latest_meas ch n = None \<or> (\<exists>v e. latest_meas ch n = Some v \<and> py_int v = Inl e)
            \<longrightarrow> snd (snd (snd (tx_tick pack env (ch, last_tx)))) = None)"
proof -
  have ok: "ok_to_send ch = Inr (\<exists>v. latest_meas ch n = Some v \<and> py_int v = Inr 1)"
    using assms by (auto simp: ok_to_send_def int_of_rts_def split: option.splits sum.splits)
  have "snd (snd (snd (tx_tick pack env (ch, last_tx)))) = None"
    if "latest_meas ch n = None \<or> (\<exists>v e. latest_meas ch n = Some v \<and> py_int v = Inl e)"
  proof -
    from that ok have "ok_to_send ch = Inr False" by auto
    then show ?thesis by (rule tx_tick_gate_closed)
  qed
  with ok show ?thesis by blast
qed

theorem ok_to_send_gating_witness:
  "ready_to_send_name (spec (snd (set_cmd (GtnetChannel_init CHANNEL_1 None (1 / 20) True)
       [(''REM_GRID'', PInt 1)]))) = Some ''ReadyToSend_1_''
   \<and> dirty (snd (set_cmd (GtnetChannel_init CHANNEL_1 None (1 / 20) True) [(''REM_GRID'', PInt 1)]))
   \<and> latest_meas (snd (set_cmd (GtnetChannel_init CHANNEL_1 None (1 / 20) True)
       [(''REM_GRID'', PInt 1)])) ''ReadyToSend_1_'' = None
   \<and> ok_to_send (snd (set_cmd (GtnetChannel_init CHANNEL_1 None (1 / 20) True)
       [(''REM_GRID'', PInt 1)])) = Inr False
   \<and> snd (snd (snd (tx_tick Inr
        \<lparr>env_connects = [True], env_t_connect = 0, env_now = 1, env_send_ok = True,
          env_t_disconnect = 0\<rparr>
        (snd (set_cmd (GtnetChannel_init CHANNEL_1 None (1 / 20) True) [(''REM_GRID'', PInt 1)]),
         0)))) = None"
  using ok_to_send_gating [of "snd (set_cmd (GtnetChannel_init CHANNEL_1 None (1 / 20) True)
       [(''REM_GRID'', PInt 1)])" "''ReadyToSend_1_''" Inr
        "\<lparr>env_connects = [True], env_t_connect = 0, env_now = 1, env_send_ok = True,
          env_t_disconnect = 0\<rparr>" 0]
  by (simp add: set_cmd_def GtnetChannel_init_def CHANNEL_1_def coerce_def)




















section \<open>Properties of the disruptor\<close>

lemma on_meas_freeze_passes_frame:
  assumes "data_cfg d ch = Some c" and "dd_enabled c" and "dd_freeze c"
  shows "snd (on_meas d ch meas draws) = Immediate meas"
  using assms by (simp add: on_meas_def Let_def)

text \<open>
  Claim C2 fails on the code. A first frame \<^verbatim>\<open>{"PGRID": 1}\<close> passes through an
  undisturbed channel; freezing is then enabled; the next frame \<^verbatim>\<open>{"PGRID": 2}\<close> is
  delivered as it came, not as the frame held when freezing was enabled:
  \<^verbatim>\<open>on_meas\<close> overwrites the stored last frame with the incoming one before it looks
  at the freeze switch, so what it replays is always the new frame.
\<close>

theorem on_meas_freeze_delivers_new_frame:
  "snd (on_meas ChannelDisruptor_init ''CH1'' [(''PGRID'', PInt 1)]
          \<lparr>u_random = 0, u_gauss = (\<lambda>i. 0), u_uniform = 0\<rparr>)
     = Immediate [(''PGRID'', PInt 1)]
   \<and> last_meas (set_data_degraded
         (fst (on_meas ChannelDisruptor_init ''CH1'' [(''PGRID'', PInt 1)]
          \<lparr>u_random = 0, u_gauss = (\<lambda>i. 0), u_uniform = 0\<rparr>)) ''CH1''
         (DataDegradationConfig_default\<lparr>dd_enabled := True, dd_freeze := True\<rparr>)) ''CH1''
     = Some [(''PGRID'', PInt 1)]
   \<and> snd (on_meas
        (set_data_degraded
           (fst (on_meas ChannelDisruptor_init ''CH1'' [(''PGRID'', PInt 1)]
          \<lparr>u_random = 0, u_gauss = (\<lambda>i. 0), u_uniform = 0\<rparr>)) ''CH1''
           (DataDegradationConfig_default\<lparr>dd_enabled := True, dd_freeze := True\<rparr>))
        ''CH1'' [(''PGRID'', PInt 2)]
        \<lparr>u_random = 0, u_gauss = (\<lambda>i. 0), u_uniform = 0\<rparr>)
     = Immediate [(''PGRID'', PInt 2)]"
  by (simp add: on_meas_def ChannelDisruptor_init_def set_data_degraded_def
      DataDegradationConfig_default_def Let_def)

text \<open>
  Claim C9, as stated, fails: a configuration with \<^verbatim>\<open>block_all=True\<close> whose master
  switch \<^verbatim>\<open>enabled\<close> is off (its default) lets every command through to the sink.
\<close>

theorem emit_cmd_block_all_disabled_counterexample:
  "ad_block_all (the (auto_cfg
       (set_autonomy_degraded ChannelDisruptor_init ''CH1''
          (AutonomyDegradationConfig_default\<lparr>ad_block_all := True\<rparr>)) ''CH1''))
   \<and> emit_cmd (set_autonomy_degraded ChannelDisruptor_init ''CH1''
                 (AutonomyDegradationConfig_default\<lparr>ad_block_all := True\<rparr>))
        () ''CH1'' [(''REM_GRID'', PInt 1)] ''grid'' \<lparr>u_random = 0, u_gauss = (\<lambda>i. 0), u_uniform = 0\<rparr>
      = Immediate ((), ''CH1'', [(''REM_GRID'', PInt 1)], ''grid'')"
  by (simp add: emit_cmd_def set_autonomy_degraded_def ChannelDisruptor_init_def
      AutonomyDegradationConfig_default_def Let_def)

text \<open>
  Claim C9, amended. When the command-path configuration of a channel is enabled and
  has \<^verbatim>\<open>block_all\<close> set, \<^verbatim>\<open>emit_cmd\<close> for that channel never calls the command sink,
  and it leaves the disruptor as it is, so this holds for any number of calls. When the
  telemetry-path configuration of a channel is enabled, does not freeze and has
  \<^verbatim>\<open>drop_prob = 1.0\<close>, \<^verbatim>\<open>on_meas\<close> for that channel never delivers a frame to the
  telemetry sink, whatever \<^verbatim>\<open>random()\<close> (a number below 1) returns, and it leaves the
  configuration as it is.
\<close>

theorem block_all_and_full_drop_deliver_nothing:
  "(auto_cfg d ch = Some a \<and> ad_enabled a \<and> ad_block_all a
      \<longrightarrow> emit_cmd d obj ch updates cmd_note draws = NoDelivery)
   \<and> (data_cfg d ch = Some c \<and> dd_enabled c \<and> \<not> dd_freeze c \<and> dd_drop_prob c = 1
        \<and> u_random draws < 1
      \<longrightarrow> snd (on_meas d ch meas draws) = NoDelivery
          \<and> data_cfg (fst (on_meas d ch meas draws)) = data_cfg d)"
  by (simp add: emit_cmd_def on_meas_def Let_def)

theorem block_all_and_full_drop_deliver_nothing_witness:
  "emit_cmd (set_autonomy_degraded
              (set_data_degraded ChannelDisruptor_init ''CH1''
                 (DataDegradationConfig_default\<lparr>dd_enabled := True, dd_drop_prob := 1\<rparr>))
              ''CH1'' (AutonomyDegradationConfig_default\<lparr>ad_enabled := True, ad_block_all := True\<rparr>))
        () ''CH1'' [(''REM_GRID'', PInt 1)] ''grid''
        \<lparr>u_random = 1 / 2, u_gauss = (\<lambda>i. 0), u_uniform = 0\<rparr> = NoDelivery
   \<and> snd (on_meas (set_autonomy_degraded
              (set_data_degraded ChannelDisruptor_init ''CH1''
                 (DataDegradationConfig_default\<lparr>dd_enabled := True, dd_drop_prob := 1\<rparr>))
              ''CH1'' (AutonomyDegradationConfig_default\<lparr>ad_enabled := True, ad_block_all := True\<rparr>))
        ''CH1'' [(''PGRID'', PInt 1)]
        \<lparr>u_random = 1 / 2, u_gauss = (\<lambda>i. 0), u_uniform = 0\<rparr>) = NoDelivery"
  using block_all_and_full_drop_deliver_nothing [of
      "set_autonomy_degraded
              (set_data_degraded ChannelDisruptor_init ''CH1''
                 (DataDegradationConfig_default\<lparr>dd_enabled := True, dd_drop_prob := 1\<rparr>))
              ''CH1'' (AutonomyDegradationConfig_default\<lparr>ad_enabled := True, ad_block_all := True\<rparr>)"
      "''CH1''"
      "AutonomyDegradationConfig_default\<lparr>ad_enabled := True, ad_block_all := True\<rparr>"
      "()" "[(''REM_GRID'', PInt 1)]" "''grid''"
      "\<lparr>u_random = 1 / 2, u_gauss = (\<lambda>i. 0), u_uniform = 0\<rparr>"
      "DataDegradationConfig_default\<lparr>dd_enabled := True, dd_drop_prob := 1\<rparr>"
      "[(''PGRID'', PInt 1)]"]
  by (simp add: set_autonomy_degraded_def set_data_degraded_def ChannelDisruptor_init_def
      DataDegradationConfig_default_def AutonomyDegradationConfig_default_def
      disrupt_clamp_def)

section \<open>Properties of the stability predicate\<close>

lemma number_cases [case_names Int Fin PosInf NegInf NaN]:
  obtains i where "x = PInt i" | r where "x = PFloat (Fin r)"
  | "x = PFloat PosInf" | "x = PFloat NegInf" | "x = PFloat NaN"
proof (cases x)
  case (PInt i)
  with that(1) show ?thesis .
next
  case (PFloat f)
  with that(2-5) show ?thesis by (cases f) auto
qed

lemma py_gt_trans: "py_gt x m \<Longrightarrow> py_gt m z \<Longrightarrow> py_gt x z"
  by (cases x rule: number_cases; cases m rule: number_cases; cases z rule: number_cases) simp_all

lemma py_gt_not_le:
  "\<not> py_gt p m \<Longrightarrow> py_gt p z \<Longrightarrow> m = PFloat NaN \<or> py_gt m z"
  by (cases p rule: number_cases; cases m rule: number_cases; cases z rule: number_cases) simp_all

lemma py_gt_NaN [simp]: "\<not> py_gt x (PFloat NaN)"
  by (cases x rule: number_cases) simp_all

lemma py_gt_irrefl [simp]: "\<not> py_gt x x"
  by (cases x rule: number_cases) simp_all

lemma pos_not_zero: "py_gt m (PInt 0) \<or> m = PFloat NaN \<Longrightarrow> \<not> py_eq m (PInt 0)"
  by (cases m rule: number_cases) auto

lemma fold_max_keeps_pos:
  "py_gt m z \<or> m = PFloat NaN
     \<Longrightarrow> py_gt (fold (\<lambda>item m. if py_gt item m then item else m) xs m) z
         \<or> fold (\<lambda>item m. if py_gt item m then item else m) xs m = PFloat NaN"
proof (induction xs arbitrary: m)
  case Nil
  then show ?case by simp
next
  case (Cons x xs)
  have "py_gt (if py_gt x m then x else m) z \<or> (if py_gt x m then x else m) = PFloat NaN"
    using Cons.prems by (auto intro: py_gt_trans)
  from Cons.IH [OF this] show ?case by simp
qed

lemma fold_max_finds_pos:
  "\<exists>x \<in> set xs. py_gt x z
     \<Longrightarrow> py_gt (fold (\<lambda>item m. if py_gt item m then item else m) xs m) z
         \<or> fold (\<lambda>item m. if py_gt item m then item else m) xs m = PFloat NaN"
proof (induction xs arbitrary: m)
  case Nil
  then show ?case by simp
next
  case (Cons x xs)
  show ?case
  proof (cases "py_gt x z")
    case True
    have "py_gt (if py_gt x m then x else m) z \<or> (if py_gt x m then x else m) = PFloat NaN"
      using True py_gt_not_le [of x m z] by auto
    from fold_max_keeps_pos [OF this] show ?thesis by simp
  next
    case False
    with Cons.prems have "\<exists>x \<in> set xs. py_gt x z" by auto
    from Cons.IH [OF this] show ?thesis by simp
  qed
qed

lemma py_max_pos:
  assumes "\<exists>x \<in> set (v # vs). py_gt x (PInt 0)"
  shows "\<not> py_eq (py_max v vs) (PInt 0)"
proof -
  have "py_gt (py_max v vs) (PInt 0) \<or> py_max v vs = PFloat NaN"
  proof (cases "py_gt v (PInt 0)")
    case True
    then show ?thesis unfolding py_max_def by (intro fold_max_keeps_pos) simp
  next
    case False
    with assms have "\<exists>x \<in> set vs. py_gt x (PInt 0)" by auto
    then show ?thesis unfolding py_max_def by (rule fold_max_finds_pos)
  qed
  then show ?thesis by (rule pos_not_zero)
qed

lemma flag_asserted_pos:
  assumes "s \<in> set samples" and "s flag = Some f" and "py_gt f (PInt 0)"
  shows "flag_asserted flag samples"
proof -
  have mem: "f \<in> set (present_vals flag samples)"
    using assms(1,2) by (force simp: present_vals_def List.map_filter_def)
  then obtain v vs where vs: "present_vals flag samples = v # vs"
    by (cases "present_vals flag samples") auto
  with mem assms(3) have "\<exists>x \<in> set (v # vs). py_gt x (PInt 0)" by auto
  from py_max_pos [OF this] vs show ?thesis by (simp add: flag_asserted_def)
qed

lemma present_vals_Nil [simp]: "present_vals signal [] = []"
  by (simp add: present_vals_def map_filter_simps)

lemma present_vals_replicate:
  "present_vals signal (replicate n s) = (case s signal of None \<Rightarrow> [] | Some v \<Rightarrow> replicate n v)"
  by (induction n) (auto simp: present_vals_def map_filter_simps split: option.splits)

lemma py_max_replicate: "py_max v (replicate n v) = v"
  by (induction n) (simp_all add: py_max_def)

lemma py_min_replicate: "py_min v (replicate n v) = v"
  by (induction n) (simp_all add: py_min_def py_lt_def)

lemma pf_self_sub_small: "0 \<le> b \<Longrightarrow> \<not> pf_gt (pf_sub f f) (Fin b)"
  by (cases f) simp_all

lemma py_sub_self_float: "py_sub conv (PFloat f) (PFloat f) = Inr (PFloat (pf_sub f f))"
  by (simp add: py_sub_def float_of_def)

lemma self_step_small: "\<not> py_gt (py_abs (PFloat (pf_sub f f))) (PFloat (Fin 0))"
  by (cases f) simp_all

lemma max_step_loop_replicate:
  "max_step_loop conv (PFloat f) (replicate n (PFloat f)) (PFloat (Fin 0)) = Inr (PFloat (Fin 0))"
  using self_step_small [of f] by (induction n) (simp_all add: py_sub_self_float Let_def)

lemma max_step_replicate: "max_step conv (replicate n (PFloat f)) = Inr (PFloat (Fin 0))"
  by (cases n) (simp_all add: max_step_def max_step_loop_replicate)

lemma float_all_replicate:
  "conv i = Inr f \<Longrightarrow> float_all conv (replicate n (PInt i)) = Inr (replicate n (PFloat f))"
  by (induction n) (simp_all add: float_of_def)

lemma flag_clear_replicate:
  assumes "case s flag of None \<Rightarrow> True | Some f \<Rightarrow> py_eq f (PInt 0)"
  shows "\<not> flag_asserted flag (replicate n s)"
proof (cases "s flag")
  case None
  then show ?thesis by (simp add: flag_asserted_def present_vals_replicate)
next
  case (Some f)
  with assms have z: "py_eq f (PInt 0)" by simp
  show ?thesis
  proof (cases n)
    case 0
    then show ?thesis by (simp add: flag_asserted_def present_vals_replicate Some)
  next
    case (Suc k)
    have "present_vals flag (replicate n s) = f # replicate k f"
      using present_vals_replicate [of flag n s] by (simp add: Some Suc)
    then show ?thesis
      using z by (simp add: flag_asserted_def py_max_replicate)
  qed
qed

lemma required_ok_replicate:
  assumes "10 \<le> n" and "\<forall>(signal, c) \<in> set limits. lim_required c \<longrightarrow> s signal \<noteq> None"
  shows "required_ok (replicate n s) limits"
  using assms(2)
proof (induction limits)
  case Nil
  then show ?case by simp
next
  case (Cons a limits)
  obtain signal c where a: "a = (signal, c)" by (cases a)
  from Cons.prems have tail: "\<forall>(signal, c) \<in> set limits. lim_required c \<longrightarrow> s signal \<noteq> None"
    by auto
  have "\<not> length (present_vals signal (replicate n s)) < max 5 (length (replicate n s) div 2)"
    if "lim_required c"
  proof -
    from that Cons.prems a obtain v where "s signal = Some v" by auto
    then show ?thesis using assms(1) by (simp add: present_vals_replicate)
  qed
  with Cons.IH [OF tail] show ?case by (auto simp: a)
qed

lemma limits_ok_replicate:
  assumes "\<forall>(signal, c) \<in> set limits.
             (\<forall>b. lim_span c = Some b \<longrightarrow> 0 \<le> b) \<and> (\<forall>b. lim_step c = Some b \<longrightarrow> 0 \<le> b)
             \<and> (\<forall>i. s signal = Some (PInt i) \<and> lim_step c \<noteq> None \<longrightarrow> (\<exists>f. conv i = Inr f))"
  shows "limits_ok conv (replicate n s) limits = Inr True"
  using assms
proof (induction limits)
  case Nil
  then show ?case by simp
next
  case (Cons a limits)
  obtain signal c where a: "a = (signal, c)" by (cases a)
  from Cons.prems have tail: "\<forall>(signal, c) \<in> set limits.
             (\<forall>b. lim_span c = Some b \<longrightarrow> 0 \<le> b) \<and> (\<forall>b. lim_step c = Some b \<longrightarrow> 0 \<le> b)
             \<and> (\<forall>i. s signal = Some (PInt i) \<and> lim_step c \<noteq> None \<longrightarrow> (\<exists>f. conv i = Inr f))"
    by auto
  from Cons.prems a have sp: "\<And>b. lim_span c = Some b \<Longrightarrow> 0 \<le> b"
    and st: "\<And>b. lim_step c = Some b \<Longrightarrow> 0 \<le> b"
    and cv: "\<And>i b. s signal = Some (PInt i) \<Longrightarrow> lim_step c = Some b \<Longrightarrow> \<exists>f. conv i = Inr f"
    by auto
  note rest = Cons.IH [OF tail]
  show ?case
  proof (cases "present_vals signal (replicate n s)")
    case Nil
    with rest show ?thesis by (simp add: a)
  next
    case (Cons v vs)
    then have "(case s signal of None \<Rightarrow> [] | Some w \<Rightarrow> replicate n w) = v # vs"
      by (simp only: present_vals_replicate)
    then obtain k where n: "n = Suc k" and sv: "s signal = Some v" and vs: "vs = replicate k v"
      by (cases n) (auto split: option.splits)
    show ?thesis
    proof (cases v)
      case (PInt i)
      show ?thesis
      proof (cases "lim_step c")
        case None
        with rest Cons PInt show ?thesis by (simp add: a)
      next
        case (Some b)
        from cv [OF _ Some] sv PInt obtain f where f: "conv i = Inr f" by auto
        have "PInt i # vs = replicate n (PInt i)" by (simp add: vs n PInt)
        then have fa: "float_all conv (PInt i # vs) = Inr (replicate n (PFloat f))"
          using f float_all_replicate [where conv = conv and i = i and f = f and n = n] by simp
        have "\<not> py_gt (PFloat (Fin 0)) (PFloat (Fin b))" using st [OF Some] by simp
        with rest Cons PInt Some fa show ?thesis
          by (simp add: a max_step_replicate)
      qed
    next
      case (PFloat f)
      have m: "py_max (PFloat f) vs = PFloat f" "py_min (PFloat f) vs = PFloat f"
        using py_max_replicate [of v k] py_min_replicate [of v k] by (simp_all add: vs PFloat)
      have "PFloat f # vs = replicate n (PFloat f)" by (simp add: vs n PFloat)
      then have s0: "max_step conv (PFloat f # vs) = Inr (PFloat (Fin 0))"
        by (simp only: max_step_replicate)
      have span: "\<not> pf_gt (pf_sub f f) (Fin b)" if "0 \<le> b" for b
        using that by (rule pf_self_sub_small)
      from rest sp st Cons PFloat show ?thesis
        using span by (auto simp: a m s0 py_sub_self_float split: option.splits)
    qed
  qed
qed

lemma stable_window_ok_overflow_raises:
  assumes "conv i = Inl e" and "10 \<le> n"
    and "signal \<noteq> ''OVERLOADED''" and "signal \<noteq> ''W_DETECTED''"
  shows "stable_window_ok conv (replicate n [signal \<mapsto> PInt i])
           [(signal, \<lparr>lim_span = sp, lim_step = Some b, lim_required = r\<rparr>)] = Inl e"
proof -
  obtain k where n: "n = Suc k" using assms(2) by (cases n) auto
  have pv: "present_vals signal (replicate n [signal \<mapsto> PInt i]) = PInt i # replicate k (PInt i)"
    using present_vals_replicate [of signal n "[signal \<mapsto> PInt i]"] by (simp add: n)
  have none: "present_vals flag (replicate n [signal \<mapsto> PInt i]) = []" if "flag \<noteq> signal" for flag
    using that present_vals_replicate [of flag n "[signal \<mapsto> PInt i]"] by simp
  have req: "required_ok (replicate n [signal \<mapsto> PInt i])
               [(signal, \<lparr>lim_span = sp, lim_step = Some b, lim_required = r\<rparr>)]"
    using assms(2) by (intro required_ok_replicate) simp_all
  have lim: "limits_ok conv (replicate n [signal \<mapsto> PInt i])
               [(signal, \<lparr>lim_span = sp, lim_step = Some b, lim_required = r\<rparr>)] = Inl e"
    using assms(1) by (simp add: pv float_of_def)
  from assms(2-4) req lim show ?thesis
    by (simp add: stable_window_ok_def flag_asserted_def none [of "''OVERLOADED''"]
        none [of "''W_DETECTED''"])
qed

text \<open>
  Claim C8, as stated, fails for a negative flag: the predicate tests
  \<^verbatim>\<open>max(ov) != 0\<close>, and the largest flag of a window whose flags are nine zeros and
  one \<open>-1\<close> is zero. The window below holds a sample with \<^verbatim>\<open>OVERLOADED = -1\<close>, and the
  predicate returns true. (The integers of the window are small: their conversion to
  a float is exact.)
\<close>

theorem stable_window_ok_negative_flag_counterexample:
  "[''PGRID'' \<mapsto> PFloat (Fin 1), ''BRKGEN'' \<mapsto> PInt 1, ''OVERLOADED'' \<mapsto> PInt (- 1)] ''OVERLOADED'' = Some (PInt (- 1))
   \<and> \<not> py_eq (PInt (- 1)) (PInt 0)
   \<and> stable_window_ok (\<lambda>i. Inr (Fin (of_int i)))
        (replicate 9 [''PGRID'' \<mapsto> PFloat (Fin 1), ''BRKGEN'' \<mapsto> PInt 1, ''OVERLOADED'' \<mapsto> PInt 0]
           @ [[''PGRID'' \<mapsto> PFloat (Fin 1), ''BRKGEN'' \<mapsto> PInt 1, ''OVERLOADED'' \<mapsto> PInt (- 1)]])
        [(''PGRID'', \<lparr>lim_span = Some (2 / 100), lim_step = Some (1 / 100), lim_required = True\<rparr>),
         (''BRKGEN'', \<lparr>lim_span = None, lim_step = Some (1 / 2), lim_required = False\<rparr>)]
      = Inr True"
proof -
  have nine: "replicate 9 x = [x, x, x, x, x, x, x, x, x]" for x :: sample
    by (simp add: eval_nat_numeral)
  show ?thesis
    unfolding nine
    by (simp add: stable_window_ok_def flag_asserted_def present_vals_def py_max_def py_min_def
        py_lt_def max_step_def py_sub_def float_of_def Let_def)
qed

text \<open>
  Claim C8, amended. Whatever the conversion of integers to floats: the predicate
  returns false for every window that holds a sample whose \<^verbatim>\<open>OVERLOADED\<close> or
  \<^verbatim>\<open>W_DETECTED\<close> flag is greater than zero. It returns true for every window of
  \<open>n \<ge> 10\<close> copies of one sample in which every required signal is present, both flags
  are missing or equal to zero, every configured span and step bound is non-negative
  (so that the zero span and step of a constant window are within bounds), and every
  monitored signal that is an integer and has a step bound is one that \<^verbatim>\<open>float\<close>
  converts without raising.
\<close>

theorem stable_window_ok_flags_and_constant:
  "((\<exists>s \<in> set samples. \<exists>f. (s ''OVERLOADED'' = Some f \<or> s ''W_DETECTED'' = Some f)
        \<and> py_gt f (PInt 0))
      \<longrightarrow> stable_window_ok conv samples limits = Inr False)
   \<and> (10 \<le> n
       \<and> (\<forall>(signal, c) \<in> set limits.
             (lim_required c \<longrightarrow> s signal \<noteq> None)
             \<and> (\<forall>b. lim_span c = Some b \<longrightarrow> 0 \<le> b)
             \<and> (\<forall>b. lim_step c = Some b \<longrightarrow> 0 \<le> b)
             \<and> (\<forall>i. s signal = Some (PInt i) \<and> lim_step c \<noteq> None \<longrightarrow> (\<exists>f. conv i = Inr f)))
       \<and> (case s ''OVERLOADED'' of None \<Rightarrow> True | Some f \<Rightarrow> py_eq f (PInt 0))
       \<and> (case s ''W_DETECTED'' of None \<Rightarrow> True | Some f \<Rightarrow> py_eq f (PInt 0))
      \<longrightarrow> stable_window_ok conv (replicate n s) limits = Inr True)"
proof (intro conjI impI)
  assume "\<exists>s \<in> set samples. \<exists>f. (s ''OVERLOADED'' = Some f \<or> s ''W_DETECTED'' = Some f)
        \<and> py_gt f (PInt 0)"
  then have "flag_asserted ''OVERLOADED'' samples \<or> flag_asserted ''W_DETECTED'' samples"
    by (auto intro: flag_asserted_pos)
  then show "stable_window_ok conv samples limits = Inr False"
    by (auto simp: stable_window_ok_def)
next
  assume h: "10 \<le> n
       \<and> (\<forall>(signal, c) \<in> set limits.
             (lim_required c \<longrightarrow> s signal \<noteq> None)
             \<and> (\<forall>b. lim_span c = Some b \<longrightarrow> 0 \<le> b)
             \<and> (\<forall>b. lim_step c = Some b \<longrightarrow> 0 \<le> b)
             \<and> (\<forall>i. s signal = Some (PInt i) \<and> lim_step c \<noteq> None \<longrightarrow> (\<exists>f. conv i = Inr f)))
       \<and> (case s ''OVERLOADED'' of None \<Rightarrow> True | Some f \<Rightarrow> py_eq f (PInt 0))
       \<and> (case s ''W_DETECTED'' of None \<Rightarrow> True | Some f \<Rightarrow> py_eq f (PInt 0))"
  then have n: "10 \<le> n" by simp
  have r: "required_ok (replicate n s) limits"
    using h by (intro required_ok_replicate) auto
  have l: "limits_ok conv (replicate n s) limits = Inr True"
    using h by (intro limits_ok_replicate) auto
  have f: "\<not> flag_asserted ''OVERLOADED'' (replicate n s)"
    "\<not> flag_asserted ''W_DETECTED'' (replicate n s)"
    using h flag_clear_replicate [where s = s and n = n] by simp_all
  from n r l f show "stable_window_ok conv (replicate n s) limits = Inr True"
    by (simp add: stable_window_ok_def)
qed

theorem stable_window_ok_flags_and_constant_witness:
  "stable_window_ok (\<lambda>i. Inr (Fin (of_int i)))
        (replicate 9 [''PGRID'' \<mapsto> PFloat (Fin 1), ''BRKGEN'' \<mapsto> PInt 1, ''OVERLOADED'' \<mapsto> PInt 0]
           @ [[''PGRID'' \<mapsto> PFloat (Fin 1), ''BRKGEN'' \<mapsto> PInt 1, ''OVERLOADED'' \<mapsto> PInt 1]])
        [(''PGRID'', \<lparr>lim_span = Some (2 / 100), lim_step = Some (1 / 100), lim_required = True\<rparr>),
         (''BRKGEN'', \<lparr>lim_span = None, lim_step = Some (1 / 2), lim_required = False\<rparr>)]
      = Inr False
   \<and> stable_window_ok (\<lambda>i. Inr (Fin (of_int i)))
        (replicate 10 [''PGRID'' \<mapsto> PFloat (Fin 1), ''BRKGEN'' \<mapsto> PInt 1, ''OVERLOADED'' \<mapsto> PInt 0])
        [(''PGRID'', \<lparr>lim_span = Some (2 / 100), lim_step = Some (1 / 100), lim_required = True\<rparr>),
         (''BRKGEN'', \<lparr>lim_span = None, lim_step = Some (1 / 2), lim_required = False\<rparr>)]
      = Inr True"
proof -
  have a: "\<exists>s \<in> set (replicate 9 [''PGRID'' \<mapsto> PFloat (Fin 1), ''BRKGEN'' \<mapsto> PInt 1, ''OVERLOADED'' \<mapsto> PInt 0]
           @ [[''PGRID'' \<mapsto> PFloat (Fin 1), ''BRKGEN'' \<mapsto> PInt 1, ''OVERLOADED'' \<mapsto> PInt 1]]).
             \<exists>f. (s ''OVERLOADED'' = Some f \<or> s ''W_DETECTED'' = Some f) \<and> py_gt f (PInt 0)"
    by (intro bexI [of _ "[''PGRID'' \<mapsto> PFloat (Fin 1), ''BRKGEN'' \<mapsto> PInt 1, ''OVERLOADED'' \<mapsto> PInt 1]"]
          exI [of _ "PInt 1"]) simp_all
  have b: "10 \<le> (10 :: nat)
       \<and> (\<forall>(signal, c) \<in> set [(''PGRID'', \<lparr>lim_span = Some (2 / 100), lim_step = Some (1 / 100), lim_required = True\<rparr>),
         (''BRKGEN'', \<lparr>lim_span = None, lim_step = Some (1 / 2), lim_required = False\<rparr>)].
             (lim_required c \<longrightarrow> [''PGRID'' \<mapsto> PFloat (Fin 1), ''BRKGEN'' \<mapsto> PInt 1, ''OVERLOADED'' \<mapsto> PInt 0] signal \<noteq> None)
             \<and> (\<forall>b. lim_span c = Some b \<longrightarrow> 0 \<le> b)
             \<and> (\<forall>b. lim_step c = Some b \<longrightarrow> 0 \<le> b)
             \<and> (\<forall>i. [''PGRID'' \<mapsto> PFloat (Fin 1), ''BRKGEN'' \<mapsto> PInt 1, ''OVERLOADED'' \<mapsto> PInt 0] signal = Some (PInt i) \<and> lim_step c \<noteq> None
                    \<longrightarrow> (\<exists>f. (\<lambda>i. Inr (Fin (of_int i))) i = Inr f)))
       \<and> (case [''PGRID'' \<mapsto> PFloat (Fin 1), ''BRKGEN'' \<mapsto> PInt 1, ''OVERLOADED'' \<mapsto> PInt 0] ''OVERLOADED'' of
             None \<Rightarrow> True | Some f \<Rightarrow> py_eq f (PInt 0))
       \<and> (case [''PGRID'' \<mapsto> PFloat (Fin 1), ''BRKGEN'' \<mapsto> PInt 1, ''OVERLOADED'' \<mapsto> PInt 0] ''W_DETECTED'' of
             None \<Rightarrow> True | Some f \<Rightarrow> py_eq f (PInt 0))"
    by simp
  from stable_window_ok_flags_and_constant [where
      conv = "(\<lambda>i. Inr (Fin (of_int i)))"
      and samples = "replicate 9 [''PGRID'' \<mapsto> PFloat (Fin 1), ''BRKGEN'' \<mapsto> PInt 1, ''OVERLOADED'' \<mapsto> PInt 0]
           @ [[''PGRID'' \<mapsto> PFloat (Fin 1), ''BRKGEN'' \<mapsto> PInt 1, ''OVERLOADED'' \<mapsto> PInt 1]]"
      and limits = "[(''PGRID'', \<lparr>lim_span = Some (2 / 100), lim_step = Some (1 / 100), lim_required = True\<rparr>),
         (''BRKGEN'', \<lparr>lim_span = None, lim_step = Some (1 / 2), lim_required = False\<rparr>)]"
      and n = 10
      and s = "[''PGRID'' \<mapsto> PFloat (Fin 1), ''BRKGEN'' \<mapsto> PInt 1, ''OVERLOADED'' \<mapsto> PInt 0]"] a b
  show ?thesis by blast
qed

end
